theory Spec2Isabelle
  imports Main "HOL-Library.AList"
begin

section \<open>Python values and exceptions\<close>

text \<open>
  The model of \<^verbatim>\<open>drawio.py\<close>. A Python \<^verbatim>\<open>str\<close> is modelled by the list of
  its UTF-8 bytes and a Python \<^verbatim>\<open>bytes\<close> object by the list of its bytes, both of
  type \<^typ>\<open>string\<close>; where the code depends on which of the two it holds, the value
  carries its dynamic type (\<open>pyval\<close>). Exceptions are values of \<open>py_error\<close>, named
  after the Python exception classes that the code and the libraries it calls raise;
  a computation that may raise returns \<open>py_error + 'a\<close>.
\<close>

datatype py_error =
    TypeError
  | IndexError
  | AttributeError
  | BinasciiError
  | ZlibError
  | UnicodeDecodeError
  | XMLSyntaxError

datatype pyval = Str string | Bytes string

section \<open>Strings: \<^verbatim>\<open>str.find\<close>, \<^verbatim>\<open>str.split\<close>\<close>

text \<open>\<^verbatim>\<open>s.find(sep)\<close>: the index of the first occurrence of \<open>sep\<close> in \<open>s\<close>.\<close>

fun find_str :: "string \<Rightarrow> string \<Rightarrow> nat option" where
  "find_str sep [] = (if sep = [] then Some 0 else None)"
| "find_str sep (c # cs) =
     (if take (length sep) (c # cs) = sep then Some 0
      else map_option Suc (find_str sep cs))"

text \<open>
  \<^verbatim>\<open>s.split(sep)\<close>: the pieces of \<open>s\<close> between the occurrences of \<open>sep\<close>, found
  from left to right without overlap. Every call of the source passes a non-empty
  literal separator (Python raises \<^verbatim>\<open>ValueError\<close> for an empty one).
\<close>

function split_str :: "string \<Rightarrow> string \<Rightarrow> string list" where
  "split_str sep s =
     (if sep = [] then [s]
      else case find_str sep s of
             None \<Rightarrow> [s]
           | Some i \<Rightarrow> take i s # split_str sep (drop (i + length sep) s))"
  by pat_completeness auto
termination
proof (relation "measure (\<lambda>(sep, s). length s)")
  show "wf (measure (\<lambda>(sep, s). length s))" by simp
next
  fix sep s :: string and i :: nat
  assume nonempty: "sep \<noteq> []" and found: "find_str sep s = Some i"
  have bound: "find_str sep t = Some j \<Longrightarrow> j + length sep \<le> length t" for t j
  proof (induction t arbitrary: j)
    case Nil
    then show ?case by (simp split: if_splits)
  next
    case (Cons c cs)
    show ?case
    proof (cases "take (length sep) (c # cs) = sep")
      case True
      then have "length (take (length sep) (c # cs)) = length sep"
        by simp
      then have "length sep \<le> length (c # cs)"
        by (simp add: min_def split: if_splits)
      with True Cons.prems show ?thesis by simp
    next
      case False
      with Cons.prems obtain k where "find_str sep cs = Some k" "j = Suc k"
        by auto
      with Cons.IH show ?thesis by simp
    qed
  qed
  from nonempty have "0 < length sep" by simp
  with bound [OF found] have "length s - (i + length sep) < length s"
    by linarith
  then show "((sep, drop (i + length sep) s), (sep, s)) \<in> measure (\<lambda>(sep, s). length s)"
    by simp
qed

text \<open>\<^verbatim>\<open>sep.join(xs)\<close>.\<close>

fun join :: "string \<Rightarrow> string list \<Rightarrow> string" where
  "join sep [] = []"
| "join sep [x] = x"
| "join sep (x # y # ys) = x @ sep @ join sep (y # ys)"

text \<open>\<^verbatim>\<open>s.split(sep, 1)\<close>: at most one split, at the first occurrence.\<close>

definition split1 :: "string \<Rightarrow> string \<Rightarrow> string list" where
  "split1 sep s =
     (case find_str sep s of
        None \<Rightarrow> [s]
      | Some i \<Rightarrow> [take i s, drop (i + length sep) s])"

section \<open>The libraries of the block codec\<close>

subsection \<open>\<^verbatim>\<open>urllib.parse.quote\<close> and \<^verbatim>\<open>unquote\<close>\<close>

definition hexdigit :: "nat \<Rightarrow> char" where
  "hexdigit n = (''0123456789ABCDEF'') ! (n mod 16)"

definition hexval :: "char \<Rightarrow> nat option" where
  "hexval c =
     (let n = of_char c :: nat in
      if 48 \<le> n \<and> n \<le> 57 then Some (n - 48)
      else if 65 \<le> n \<and> n \<le> 70 then Some (n - 55)
      else if 97 \<le> n \<and> n \<le> 102 then Some (n - 87)
      else None)"

text \<open>
  The characters \<^verbatim>\<open>quote\<close> never escapes: letters, digits, \<^verbatim>\<open>_.-~\<close>, and
  the default \<^verbatim>\<open>safe='/'\<close>.
\<close>

definition quote_safe :: "char \<Rightarrow> bool" where
  "quote_safe c =
     (let n = of_char c :: nat in
      (65 \<le> n \<and> n \<le> 90) \<or> (97 \<le> n \<and> n \<le> 122) \<or> (48 \<le> n \<and> n \<le> 57)
      \<or> c \<in> set ''_.-~/'')"

definition quote_byte :: "char \<Rightarrow> string" where
  "quote_byte c =
     (if quote_safe c then [c]
      else [CHR ''%'', hexdigit (of_char c div 16), hexdigit (of_char c mod 16)])"

text \<open>\<^verbatim>\<open>quote(s)\<close> escapes the UTF-8 bytes of \<open>s\<close> one by one; its result is a \<^verbatim>\<open>str\<close>.\<close>

definition quote :: "string \<Rightarrow> string" where
  "quote s = concat (map quote_byte s)"

text \<open>
  \<^verbatim>\<open>unquote_to_bytes\<close>: every \<^verbatim>\<open>%XX\<close> with two hexadecimal digits becomes the
  byte \<open>XX\<close>; a \<^verbatim>\<open>%\<close> that is not followed by two hexadecimal digits stays as it is
  (the library catches the \<^verbatim>\<open>KeyError\<close> of its table and appends the text unchanged).
\<close>

fun unquote_to_bytes :: "string \<Rightarrow> string" where
  "unquote_to_bytes [] = []"
| "unquote_to_bytes (c # cs) =
     (if c = CHR ''%'' then
        (case cs of
           h1 # h2 # rest \<Rightarrow>
             (case (hexval h1, hexval h2) of
                (Some a, Some b) \<Rightarrow> char_of (16 * a + b) # unquote_to_bytes rest
              | _ \<Rightarrow> c # unquote_to_bytes cs)
         | _ \<Rightarrow> c # unquote_to_bytes cs)
      else c # unquote_to_bytes cs)"

text \<open>
  UTF-8 as CPython decodes it: \<open>utf8_len\<close> is the length a lead byte announces
  (\<open>0\<close> for a byte that cannot start a sequence), \<open>utf8_second\<close> the range check of
  the second byte (which excludes overlong forms, surrogates and code points above
  \<^verbatim>\<open>U+10FFFF\<close>), and \<open>utf8_good\<close> counts how many bytes of the sequence at the
  head of the input are well-formed.
\<close>

definition utf8_len :: "char \<Rightarrow> nat" where
  "utf8_len c =
     (let n = of_char c :: nat in
      if n < 128 then 1
      else if 194 \<le> n \<and> n \<le> 223 then 2
      else if 224 \<le> n \<and> n \<le> 239 then 3
      else if 240 \<le> n \<and> n \<le> 244 then 4
      else 0)"

definition utf8_cont :: "char \<Rightarrow> bool" where
  "utf8_cont c = (128 \<le> (of_char c :: nat) \<and> (of_char c :: nat) \<le> 191)"

definition utf8_second :: "char \<Rightarrow> char \<Rightarrow> bool" where
  "utf8_second lead c =
     (let l = of_char lead :: nat; n = of_char c :: nat in
      if l = 224 then 160 \<le> n \<and> n \<le> 191
      else if l = 237 then 128 \<le> n \<and> n \<le> 159
      else if l = 240 then 144 \<le> n \<and> n \<le> 191
      else if l = 244 then 128 \<le> n \<and> n \<le> 143
      else utf8_cont c)"

definition utf8_good :: "string \<Rightarrow> nat" where
  "utf8_good bs =
     (case bs of
        [] \<Rightarrow> 0
      | b # rest \<Rightarrow>
          (let n = utf8_len b in
           if n \<le> 1 then 1
           else case rest of
             [] \<Rightarrow> 1
           | c # rest2 \<Rightarrow>
               if \<not> utf8_second b c then 1
               else Suc (Suc (length (takeWhile utf8_cont (take (n - 2) rest2))))))"

text \<open>\<^verbatim>\<open>b.decode('utf-8')\<close> (strict) succeeds exactly on well-formed UTF-8.\<close>

function utf8_valid :: "string \<Rightarrow> bool" where
  "utf8_valid [] = True"
| "utf8_valid (b # bs) =
     (if utf8_len b = 0 \<or> utf8_good (b # bs) \<noteq> utf8_len b then False
      else utf8_valid (drop (utf8_len b) (b # bs)))"
  by pat_completeness auto
termination
proof (relation "measure length")
  show "wf (measure length)" by simp
next
  fix b :: char and bs :: string
  assume "\<not> (utf8_len b = 0 \<or> utf8_good (b # bs) \<noteq> utf8_len b)"
  then show "(drop (utf8_len b) (b # bs), b # bs) \<in> measure length"
    by (cases "utf8_len b") auto
qed

definition utf8_decode :: "string \<Rightarrow> py_error + string" where
  "utf8_decode b = (if utf8_valid b then Inr b else Inl UnicodeDecodeError)"

text \<open>
  \<^verbatim>\<open>bytes.decode('utf-8', 'replace')\<close>: every maximal ill-formed part becomes
  \<^verbatim>\<open>U+FFFD\<close> (bytes \<^verbatim>\<open>EF BF BD\<close>); nothing is raised.
\<close>

function utf8_replace :: "string \<Rightarrow> string" where
  "utf8_replace [] = []"
| "utf8_replace (b # bs) =
     (let n = utf8_len b; k = utf8_good (b # bs) in
      if n \<noteq> 0 \<and> k = n then take n (b # bs) @ utf8_replace (drop n (b # bs))
      else [char_of (239 :: nat), char_of (191 :: nat), char_of (189 :: nat)]
           @ utf8_replace (drop k (b # bs)))"
  by pat_completeness auto
termination
proof (relation "measure length")
  show "wf (measure length)" by simp
next
  fix b :: char and bs :: string and n k :: nat
  assume "n = utf8_len b" and "n \<noteq> 0 \<and> k = n"
  then show "(drop n (b # bs), b # bs) \<in> measure length"
    by (cases n) auto
next
  fix b :: char and bs :: string and n k :: nat
  assume "k = utf8_good (b # bs)"
  then have "0 < k"
    by (auto simp: utf8_good_def Let_def split: list.splits)
  then show "(drop k (b # bs), b # bs) \<in> measure length"
    by (cases k) auto
qed

text \<open>
  \<^verbatim>\<open>unquote(s)\<close> with its defaults \<^verbatim>\<open>encoding='utf-8', errors='replace'\<close>: the
  escapes are replaced by their bytes and the bytes are decoded leniently. It has no
  failing case: a malformed escape is kept as text.
\<close>

definition unquote :: "string \<Rightarrow> string" where
  "unquote s = utf8_replace (unquote_to_bytes s)"

subsection \<open>\<^verbatim>\<open>base64.b64encode\<close> and \<^verbatim>\<open>b64decode\<close>\<close>

definition b64_char :: "nat \<Rightarrow> char" where
  "b64_char n =
     (''ABCDEFGHIJKLMNOPQRSTUVWXYZabcdefghijklmnopqrstuvwxyz0123456789+/'') ! (n mod 64)"

definition b64_index :: "char \<Rightarrow> nat option" where
  "b64_index c =
     (let n = of_char c :: nat in
      if 65 \<le> n \<and> n \<le> 90 then Some (n - 65)
      else if 97 \<le> n \<and> n \<le> 122 then Some (n - 71)
      else if 48 \<le> n \<and> n \<le> 57 then Some (n + 4)
      else if n = 43 then Some 62
      else if n = 47 then Some 63
      else None)"

fun b64encode :: "string \<Rightarrow> string" where
  "b64encode [] = []"
| "b64encode [a] =
     (let x = of_char a :: nat in
      [b64_char (x div 4), b64_char ((x mod 4) * 16), CHR ''='', CHR ''=''])"
| "b64encode [a, b] =
     (let x = of_char a :: nat; y = of_char b :: nat in
      [b64_char (x div 4), b64_char ((x mod 4) * 16 + y div 16),
       b64_char ((y mod 16) * 4), CHR ''=''])"
| "b64encode (a # b # c # rest) =
     (let x = of_char a :: nat; y = of_char b :: nat; z = of_char c :: nat in
      [b64_char (x div 4), b64_char ((x mod 4) * 16 + y div 16),
       b64_char ((y mod 16) * 4 + z div 64), b64_char (z mod 64)] @ b64encode rest)"

text \<open>
  \<^verbatim>\<open>binascii.a2b_base64\<close> in its default, non-strict mode, which \<^verbatim>\<open>b64decode\<close>
  calls: characters outside the alphabet are skipped, \<open>quad_pos\<close> counts the
  characters of the current group of four, \<open>leftchar\<close> holds the bits not yet
  written, \<open>pads\<close> the padding characters seen; a group that is left incomplete
  raises \<^verbatim>\<open>binascii.Error\<close>.
\<close>

fun a2b_base64 :: "nat \<Rightarrow> nat \<Rightarrow> nat \<Rightarrow> string \<Rightarrow> string \<Rightarrow> py_error + string" where
  "a2b_base64 quad_pos leftchar pads out [] =
     (if quad_pos = 0 then Inr out else Inl BinasciiError)"
| "a2b_base64 quad_pos leftchar pads out (c # cs) =
     (if c = CHR ''='' then
        (if 2 \<le> quad_pos \<and> 4 \<le> quad_pos + (pads + 1) then Inr out
         else a2b_base64 quad_pos leftchar (if 2 \<le> quad_pos then pads + 1 else pads) out cs)
      else case b64_index c of
        None \<Rightarrow> a2b_base64 quad_pos leftchar pads out cs
      | Some v \<Rightarrow>
          (if quad_pos = 0 then a2b_base64 1 v 0 out cs
           else if quad_pos = 1 then
             a2b_base64 2 (v mod 16) 0 (out @ [char_of (leftchar * 4 + v div 16)]) cs
           else if quad_pos = 2 then
             a2b_base64 3 (v mod 4) 0 (out @ [char_of (leftchar * 16 + v div 4)]) cs
           else a2b_base64 0 0 0 (out @ [char_of (leftchar * 64 + v)]) cs))"

definition b64decode :: "string \<Rightarrow> py_error + string" where
  "b64decode s = a2b_base64 0 0 0 [] s"

subsection \<open>\<^verbatim>\<open>zlib\<close>\<close>

text \<open>
  The deflate algorithm itself is a parameter of the model: \<open>inflate\<close> is what
  \<^verbatim>\<open>zlib.decompress(s, wbits=-15)\<close> computes on a byte string (\<open>None\<close> where it
  raises \<^verbatim>\<open>zlib.error\<close>), \<open>deflate\<close> what \<^verbatim>\<open>zlib.compress(b, wbits=-15)\<close>
  computes on one. What the code depends on beyond that is written out: both functions
  accept bytes-like objects only and raise \<^verbatim>\<open>TypeError\<close> for a \<^verbatim>\<open>str\<close>.
\<close>

definition zlib_decompress :: "(string \<Rightarrow> string option) \<Rightarrow> pyval \<Rightarrow> py_error + string" where
  "zlib_decompress inflate v =
     (case v of
        Str _ \<Rightarrow> Inl TypeError
      | Bytes s \<Rightarrow> (case inflate s of None \<Rightarrow> Inl ZlibError | Some d \<Rightarrow> Inr d))"

definition zlib_compress :: "(string \<Rightarrow> string) \<Rightarrow> pyval \<Rightarrow> py_error + string" where
  "zlib_compress deflate v =
     (case v of
        Str _ \<Rightarrow> Inl TypeError
      | Bytes b \<Rightarrow> Inr (deflate b))"

text \<open>
  A raw deflate stream made of stored blocks only (RFC 1951, section 3.2.4): a header
  byte whose lowest bit marks the last block and whose next two bits are \<open>00\<close>, the
  length and its complement in two little-endian bytes each, and the bytes
  themselves. On such streams this is what \<^verbatim>\<open>zlib.decompress\<close> returns; it serves as
  the instance of \<open>inflate\<close> in the examples, where other block types do not occur.
\<close>

function inflate_stored :: "string \<Rightarrow> string option" where
  "inflate_stored s =
     (case s of
        h # l0 # l1 # n0 # n1 # rest \<Rightarrow>
          (let len = (of_char l0 :: nat) + 256 * of_char l1;
               nlen = (of_char n0 :: nat) + 256 * of_char n1 in
           if ((of_char h :: nat) div 2) mod 4 \<noteq> 0 then None
           else if len + nlen \<noteq> 65535 then None
           else if length rest < len then None
           else if (of_char h :: nat) mod 2 = 1 then Some (take len rest)
           else map_option (\<lambda>r. take len rest @ r) (inflate_stored (drop len rest)))
      | _ \<Rightarrow> None)"
  by pat_completeness auto
termination
  by (relation "measure length") auto

section \<open>The block codec\<close>

text \<open>
  \<^verbatim>\<open>_mxDecodeBlock\<close>: a \<^verbatim>\<open>str\<close> is encoded to bytes first; then base64, raw
  inflate, strict UTF-8 decoding and \<^verbatim>\<open>unquote\<close>. There is no \<^verbatim>\<open>try\<close> in it: an
  exception of a stage leaves the function as it is.
\<close>

definition mxDecodeBlock :: "(string \<Rightarrow> string option) \<Rightarrow> pyval \<Rightarrow> py_error + string" where
  "mxDecodeBlock inflate b =
     (let b1 = (case b of Str t \<Rightarrow> Bytes t | Bytes t \<Rightarrow> Bytes t) in
      case b64decode (case b1 of Str t \<Rightarrow> t | Bytes t \<Rightarrow> t) of
        Inl e \<Rightarrow> Inl e
      | Inr s \<Rightarrow>
          (case zlib_decompress inflate (Bytes s) of
             Inl e \<Rightarrow> Inl e
           | Inr b2 \<Rightarrow>
               (case utf8_decode b2 of
                  Inl e \<Rightarrow> Inl e
                | Inr t \<Rightarrow> Inr (unquote t))))"

text \<open>
  \<^verbatim>\<open>_mxEncodeBlock\<close>: \<^verbatim>\<open>quote(s)\<close> is a \<^verbatim>\<open>str\<close>, and it is handed to
  \<^verbatim>\<open>zlib.compress\<close> as it is; the result of \<^verbatim>\<open>b64encode\<close> would be \<^verbatim>\<open>bytes\<close>.
\<close>

definition mxEncodeBlock :: "(string \<Rightarrow> string) \<Rightarrow> string \<Rightarrow> py_error + pyval" where
  "mxEncodeBlock deflate s =
     (let b = Str (quote s) in
      case zlib_compress deflate b of
        Inl e \<Rightarrow> Inl e
      | Inr c \<Rightarrow> Inr (Bytes (b64encode c)))"

section \<open>Elements and items\<close>

text \<open>
  An \<^verbatim>\<open>lxml\<close> element: its tag, its attributes and its child elements.
  \<^verbatim>\<open>attrib.get(k)\<close> is \<open>map_of (attrib x) k\<close>, and \<^verbatim>\<open>x[i]\<close> is the
  \<open>i\<close>-th child, an \<^verbatim>\<open>IndexError\<close> when there is none.
\<close>

datatype xml = Element (tag: string) (attrib: "(string \<times> string) list") (kids: "xml list")

definition child :: "xml \<Rightarrow> nat \<Rightarrow> py_error + xml" where
  "child x i = (if i < length (kids x) then Inr (kids x ! i) else Inl IndexError)"

text \<open>
  \<^verbatim>\<open>MxItem\<close> objects live in a store and are referred to by address; the fields
  of an object keep their names, with \<open>u_\<close> for the leading underscore. The only
  object a \<^verbatim>\<open>_fileRoot\<close> field ever holds is the \<^verbatim>\<open>DrawIoFile\<close> itself.
\<close>

type_synonym addr = nat

datatype file_ref = ThisFile

record MxItem =
  u_fileChildren :: "addr list"
  u_parent :: "addr option"
  u_children :: "addr list"
  u_root :: "addr option"
  u_fileRoot :: "file_ref option"
  fileParent :: "addr option"
  u_xmlTag :: xml

text \<open>
  The \<^verbatim>\<open>DrawIoFile\<close> object together with the store of the items it owns:
  \<open>items\<close> maps an address to the object there, addresses below \<open>fresh\<close> are
  allocated. \<open>u_itemLookup\<close> is the dictionary \<^verbatim>\<open>_itemLookup\<close>, as the list of
  its entries in insertion order; a key is the value of \<^verbatim>\<open>item.id\<close>, which is
  \<open>None\<close> for an element without an \<^verbatim>\<open>id\<close> attribute.
\<close>

record DrawIoFile =
  items :: "addr \<Rightarrow> MxItem"
  fresh :: addr
  u_itemTree :: "addr option"
  u_itemLookup :: "(string option \<times> addr) list"
  u_etree :: "xml option"

text \<open>\<^verbatim>\<open>MxItem.__init__\<close>: \<open>self\<close> is the address of the new object.\<close>

definition MxItem_init :: "addr \<Rightarrow> addr option \<Rightarrow> xml \<Rightarrow> MxItem" where
  "MxItem_init self fp x =
     \<lparr>u_fileChildren = [], u_parent = None, u_children = [], u_root = Some self,
      u_fileRoot = None, fileParent = fp, u_xmlTag = x\<rparr>"

text \<open>\<^verbatim>\<open>MxItem(fileParent, xmlTag)\<close>: allocate an object and initialise it.\<close>

definition new_MxItem :: "DrawIoFile \<Rightarrow> addr option \<Rightarrow> xml \<Rightarrow> addr \<times> DrawIoFile" where
  "new_MxItem st fp x =
     (let a = fresh st in
      (a, st\<lparr>items := (items st)(a := MxItem_init a fp x), fresh := Suc a\<rparr>))"

text \<open>\<^verbatim>\<open>DrawIoFile.__init__\<close>, before \<^verbatim>\<open>load\<close>: no item exists yet.\<close>

definition DrawIoFile_init :: DrawIoFile where
  "DrawIoFile_init =
     \<lparr>items = (\<lambda>a. MxItem_init a None (Element [] [] [])), fresh = 0,
      u_itemTree = None, u_itemLookup = [], u_etree = None\<rparr>"

definition mxType :: "DrawIoFile \<Rightarrow> addr \<Rightarrow> string" where
  "mxType st a = tag (u_xmlTag (items st a))"

definition mxId :: "DrawIoFile \<Rightarrow> addr \<Rightarrow> string option" where
  "mxId st a = map_of (attrib (u_xmlTag (items st a))) ''id''"

text \<open>\<^verbatim>\<open>name\<close>: the tag, followed by the value in double quotes when there is one.\<close>

definition name :: "DrawIoFile \<Rightarrow> addr \<Rightarrow> string" where
  "name st a =
     (case map_of (attrib (u_xmlTag (items st a))) ''value'' of
        None \<Rightarrow> mxType st a
      | Some v \<Rightarrow> mxType st a @ '' '' @ [CHR 0x22] @ v @ [CHR 0x22])"

definition lookupId :: "DrawIoFile \<Rightarrow> string option \<Rightarrow> addr option" where
  "lookupId st k = map_of (u_itemLookup st) k"

text \<open>
  The \<^verbatim>\<open>xmlTag\<close> setter: it stores the element and builds one item per child
  element. \<open>new_children\<close> is its list comprehension.
\<close>

fun new_children :: "DrawIoFile \<Rightarrow> addr \<Rightarrow> xml list \<Rightarrow> addr list \<times> DrawIoFile" where
  "new_children st self [] = ([], st)"
| "new_children st self (x # xs) =
     (let (a, st1) = new_MxItem st (Some self) x;
          (as, st2) = new_children st1 self xs
      in (a # as, st2))"

definition set_xmlTag :: "DrawIoFile \<Rightarrow> addr \<Rightarrow> xml \<Rightarrow> DrawIoFile" where
  "set_xmlTag st a x =
     (let st1 = st\<lparr>items := (items st)(a := (items st a)\<lparr>u_xmlTag := x\<rparr>)\<rparr>;
          (cs, st2) = new_children st1 a (kids x)
      in st2\<lparr>items := (items st2)(a := (items st2 a)\<lparr>u_fileChildren := cs\<rparr>)\<rparr>)"

text \<open>
  An assignment \<^verbatim>\<open>item.xmlTag.attrib[k] = v\<close> by a client: the attribute is
  replaced in place or added.
\<close>

definition set_attrib :: "DrawIoFile \<Rightarrow> addr \<Rightarrow> string \<Rightarrow> string \<Rightarrow> DrawIoFile" where
  "set_attrib st a k v =
     st\<lparr>items := (items st)(a := (items st a)
        \<lparr>u_xmlTag := (case u_xmlTag (items st a) of
            Element t al cs \<Rightarrow> Element t (AList.update k v al) cs)\<rparr>)\<rparr>"

section \<open>The accessors of an item\<close>

text \<open>
  The recursive accessors take a bound \<open>n\<close> on the depth of their recursion: the
  result \<open>None\<close> says that the recursion did not end within \<open>n\<close> calls, \<open>Some r\<close>
  that the call returned \<open>r\<close>.

  \<^verbatim>\<open>fileRoot\<close>: the cached value, or else the file root of the physical parent,
  which is then cached.
\<close>

fun fileRoot :: "nat \<Rightarrow> DrawIoFile \<Rightarrow> addr \<Rightarrow> (file_ref option \<times> DrawIoFile) option" where
  "fileRoot 0 st a = None"
| "fileRoot (Suc n) st a =
     (case u_fileRoot (items st a) of
        Some r \<Rightarrow> Some (Some r, st)
      | None \<Rightarrow>
          (case fileParent (items st a) of
             None \<Rightarrow> Some (None, st)
           | Some p \<Rightarrow>
               (case fileRoot n st p of
                  None \<Rightarrow> None
                | Some (r, st1) \<Rightarrow>
                    Some (r, st1\<lparr>items := (items st1)(a := (items st1 a)\<lparr>u_fileRoot := r\<rparr>)\<rparr>))))"

text \<open>
  \<^verbatim>\<open>parent\<close>: the cached parent is kept when its id equals the \<^verbatim>\<open>parent\<close>
  attribute; otherwise the attribute is looked up through the file root
  (\<^verbatim>\<open>None.lookupId\<close> is an \<^verbatim>\<open>AttributeError\<close>) and the result is cached.
\<close>

definition parent :: "nat \<Rightarrow> DrawIoFile \<Rightarrow> addr \<Rightarrow> (py_error + addr option \<times> DrawIoFile) option" where
  "parent n st a =
     (let parentId = map_of (attrib (u_xmlTag (items st a))) ''parent'' in
      if (case u_parent (items st a) of None \<Rightarrow> True | Some p \<Rightarrow> mxId st p \<noteq> parentId) then
        (case parentId of
           None \<Rightarrow>
             Some (Inr (None, st\<lparr>items := (items st)(a := (items st a)\<lparr>u_parent := None\<rparr>)\<rparr>))
         | Some pid \<Rightarrow>
             (case fileRoot n st a of
                None \<Rightarrow> None
              | Some (None, st1) \<Rightarrow> Some (Inl AttributeError)
              | Some (Some ThisFile, st1) \<Rightarrow>
                  (let r = lookupId st1 (Some pid) in
                   Some (Inr (r, st1\<lparr>items := (items st1)(a := (items st1 a)\<lparr>u_parent := r\<rparr>)\<rparr>)))))
      else Some (Inr (u_parent (items st a), st)))"

text \<open>
  \<^verbatim>\<open>root\<close>: the cached \<^verbatim>\<open>_root\<close> unless it is \<^verbatim>\<open>None\<close>; then the root of
  the logical parent, cached, when there is a parent.
\<close>

fun root :: "nat \<Rightarrow> DrawIoFile \<Rightarrow> addr \<Rightarrow> (py_error + addr option \<times> DrawIoFile) option" where
  "root 0 st a = None"
| "root (Suc n) st a =
     (case u_root (items st a) of
        Some r \<Rightarrow> Some (Inr (Some r, st))
      | None \<Rightarrow>
          (case parent n st a of
             None \<Rightarrow> None
           | Some (Inl e) \<Rightarrow> Some (Inl e)
           | Some (Inr (None, st1)) \<Rightarrow> Some (Inr (u_root (items st1 a), st1))
           | Some (Inr (Some p, st1)) \<Rightarrow>
               (case root n st1 p of
                  None \<Rightarrow> None
                | Some (Inl e) \<Rightarrow> Some (Inl e)
                | Some (Inr (r, st2)) \<Rightarrow>
                    Some (Inr (r, st2\<lparr>items := (items st2)(a := (items st2 a)\<lparr>u_root := r\<rparr>)\<rparr>)))))"

text \<open>
  \<^verbatim>\<open>children\<close>: the physical children stand in for the logical ones of an item
  named \<^verbatim>\<open>root\<close> that has none.
\<close>

definition children :: "DrawIoFile \<Rightarrow> addr \<Rightarrow> addr list" where
  "children st a =
     (if u_children (items st a) = [] \<and> name st a = ''root'' then u_fileChildren (items st a)
      else u_children (items st a))"

text \<open>
  \<^verbatim>\<open>__getitem__\<close> with an integer index: \<^verbatim>\<open>children\<close> is evaluated and dropped,
  then \<^verbatim>\<open>_children\<close> is indexed as a Python list is (a negative index counts
  from the end, an index out of range raises \<^verbatim>\<open>IndexError\<close>).
\<close>

definition getitem :: "DrawIoFile \<Rightarrow> addr \<Rightarrow> int \<Rightarrow> py_error + addr" where
  "getitem st a idx =
     (let unused = children st a;
          cs = u_children (items st a);
          len = int (length cs);
          j = (if idx < 0 then len + idx else idx)
      in if 0 \<le> j \<and> j < len then Inr (cs ! nat j) else Inl IndexError)"

text \<open>\<^verbatim>\<open>walkFileTree\<close>: the item, then the walks of its physical children in order.\<close>

fun walkFileTree :: "nat \<Rightarrow> DrawIoFile \<Rightarrow> addr \<Rightarrow> addr list option" where
  "walkFileTree 0 st a = None"
| "walkFileTree (Suc n) st a =
     map_option (\<lambda>ws. a # concat ws)
       (those (map (walkFileTree n st) (u_fileChildren (items st a))))"

text \<open>
  \<^verbatim>\<open>MxItem.treeStr\<close>: \<open>ignore\<close> is \<open>None\<close> for the Python default. In that
  branch the set \<^verbatim>\<open>set([self])\<close> is bound to the local name and nothing else is
  done; the children are visited in the last branch only, and with the set they were
  given.
\<close>

fun treeStr :: "nat \<Rightarrow> DrawIoFile \<Rightarrow> addr \<Rightarrow> string \<Rightarrow> addr set option \<Rightarrow> string option" where
  "treeStr 0 st a indent ignore = None"
| "treeStr (Suc n) st a indent ignore =
     (let ret = [indent @ name st a];
          indent1 = indent @ ''   ''
      in case ignore of
           None \<Rightarrow> Some (join indent1 ret)
         | Some ig \<Rightarrow>
             if a \<in> ig then Some (join indent1 (ret @ [''...'']))
             else map_option (\<lambda>rs. join indent1 (ret @ rs))
                    (those (map (\<lambda>c. treeStr n st c indent1 (Some ig)) (children st a))))"

section \<open>The document\<close>

text \<open>
  \<^verbatim>\<open>DrawIoFile.treeStr\<close>: \<^verbatim>\<open>self._itemTree[0]\<close> first (\<^verbatim>\<open>None[0]\<close> is a
  \<^verbatim>\<open>TypeError\<close>), then \<^verbatim>\<open>treeStr\<close> of that item.
\<close>

definition DrawIoFile_treeStr ::
  "nat \<Rightarrow> DrawIoFile \<Rightarrow> string \<Rightarrow> addr set option \<Rightarrow> (py_error + string) option" where
  "DrawIoFile_treeStr n st indent ignore =
     (case u_itemTree st of
        None \<Rightarrow> Some (Inl TypeError)
      | Some t \<Rightarrow>
          (case getitem st t 0 of
             Inl e \<Rightarrow> Some (Inl e)
           | Inr c \<Rightarrow> map_option Inr (treeStr n st c indent ignore)))"

text \<open>
  \<^verbatim>\<open>_relinkAll\<close>, first loop: \<^verbatim>\<open>self._itemLookup[item.id] = item\<close> for every
  item of the walk. An assignment to a key that is present replaces its value and
  keeps its place, a new key goes to the end.
\<close>

fun index_items ::
  "DrawIoFile \<Rightarrow> addr list \<Rightarrow> (string option \<times> addr) list \<Rightarrow> (string option \<times> addr) list" where
  "index_items st [] d = d"
| "index_items st (item # rest) d = index_items st rest (AList.update (mxId st item) item d)"

text \<open>
  The body of the second loop: \<^verbatim>\<open>item.parent\<close> is read twice, for the test and for
  the \<^verbatim>\<open>append\<close>.
\<close>

definition link_item :: "nat \<Rightarrow> DrawIoFile \<Rightarrow> addr \<Rightarrow> (py_error + DrawIoFile) option" where
  "link_item n st item =
     (case parent n st item of
        None \<Rightarrow> None
      | Some (Inl e) \<Rightarrow> Some (Inl e)
      | Some (Inr (None, st1)) \<Rightarrow> Some (Inr st1)
      | Some (Inr (Some q, st1)) \<Rightarrow>
          (case parent n st1 item of
             None \<Rightarrow> None
           | Some (Inl e) \<Rightarrow> Some (Inl e)
           | Some (Inr (None, st2)) \<Rightarrow> Some (Inl AttributeError)
           | Some (Inr (Some p, st2)) \<Rightarrow>
               Some (Inr (st2\<lparr>items := (items st2)
                 (p := (items st2 p)\<lparr>u_children := u_children (items st2 p) @ [item]\<rparr>)\<rparr>))))"

fun link_items :: "nat \<Rightarrow> DrawIoFile \<Rightarrow> addr list \<Rightarrow> (py_error + DrawIoFile) option" where
  "link_items n st [] = Some (Inr st)"
| "link_items n st (item # rest) =
     (case link_item n st item of
        None \<Rightarrow> None
      | Some (Inl e) \<Rightarrow> Some (Inl e)
      | Some (Inr st1) \<Rightarrow> link_items n st1 rest)"

definition relinkAll :: "nat \<Rightarrow> DrawIoFile \<Rightarrow> (py_error + DrawIoFile) option" where
  "relinkAll n st =
     (case u_itemTree st of
        None \<Rightarrow> Some (Inl AttributeError)
      | Some t \<Rightarrow>
          (case walkFileTree n st t of
             None \<Rightarrow> None
           | Some ws \<Rightarrow>
               (let st1 = st\<lparr>u_itemLookup := index_items st ws []\<rparr>
                in link_items n st1 (map snd (u_itemLookup st1)))))"

text \<open>
  \<^verbatim>\<open>assign\<close>, the branch \<^verbatim>\<open>if encoded\<close>: the loop over the pieces of
  \<^verbatim>\<open>s.split('<diagram')\<close>, with the list \<open>decoded\<close> built so far. The test
  \<^verbatim>\<open>not decoded\<close> is on the list, so it holds for the first piece only.
\<close>

fun assign_pieces ::
  "(string \<Rightarrow> string option) \<Rightarrow> bool \<Rightarrow> string list \<Rightarrow> string list \<Rightarrow> py_error + string list" where
  "assign_pieces inflate keepMxfileTag decoded [] = Inr decoded"
| "assign_pieces inflate keepMxfileTag decoded (mx # rest) =
     (if decoded = [] then
        assign_pieces inflate keepMxfileTag
          (decoded @ [mx] @ (if keepMxfileTag then [''<diagram''] else [])) rest
      else
        (let mxs = split1 ''>'' mx;
             decoded1 = (if keepMxfileTag then decoded @ [mxs ! 0, ''>''] else decoded)
         in if length mxs < 2 then Inl IndexError
            else
              (let mxs2 = split1 ''</diagram>'' (mxs ! 1) in
               case mxDecodeBlock inflate (Str (mxs2 ! 0)) of
                 Inl e \<Rightarrow> Inl e
               | Inr t \<Rightarrow>
                   (let decoded2 =
                          decoded1 @ [t] @ (if keepMxfileTag then [''</diagram>''] else [])
                    in if length mxs2 < 2 then Inl IndexError
                       else assign_pieces inflate keepMxfileTag (decoded2 @ [mxs2 ! 1]) rest))))"

text \<open>The string that \<^verbatim>\<open>assign\<close> hands to \<^verbatim>\<open>lxml.etree.fromstring\<close>.\<close>

definition assign_text ::
  "(string \<Rightarrow> string option) \<Rightarrow> string \<Rightarrow> bool \<Rightarrow> bool \<Rightarrow> py_error + string" where
  "assign_text inflate s encoded keepMxfileTag =
     (if encoded then
        (case assign_pieces inflate keepMxfileTag [] (split_str ''<diagram'' s) of
           Inl e \<Rightarrow> Inl e
         | Inr decoded \<Rightarrow> Inr (concat decoded))
      else Inr s)"

text \<open>
  \<^verbatim>\<open>assign\<close> from the parsed tree on: the item tree is one new \<^verbatim>\<open>MxItem\<close> for
  \<^verbatim>\<open>self._etree[0][0][0]\<close>, built by the constructor, which stores the element
  in the field \<^verbatim>\<open>_xmlTag\<close>; then \<^verbatim>\<open>_relinkAll\<close>.
\<close>

definition assign_tree :: "nat \<Rightarrow> DrawIoFile \<Rightarrow> xml \<Rightarrow> (py_error + DrawIoFile) option" where
  "assign_tree n st e =
     (case child e 0 of
        Inl err \<Rightarrow> Some (Inl err)
      | Inr e1 \<Rightarrow>
          (case child e1 0 of
             Inl err \<Rightarrow> Some (Inl err)
           | Inr e2 \<Rightarrow>
               (case child e2 0 of
                  Inl err \<Rightarrow> Some (Inl err)
                | Inr e3 \<Rightarrow>
                    (let (r, st1) = new_MxItem (st\<lparr>u_etree := Some e\<rparr>) None e3;
                         st2 = st1\<lparr>u_itemTree := Some r\<rparr>;
                         st3 = st2\<lparr>items := (items st2)
                                 (r := (items st2 r)\<lparr>u_fileRoot := Some ThisFile\<rparr>)\<rparr>
                     in relinkAll n st3))))"

text \<open>
  \<^verbatim>\<open>assign\<close>. The XML parser is a parameter: \<open>fromstring s\<close> is the tree
  \<^verbatim>\<open>lxml.etree.fromstring(s)\<close> returns, \<open>None\<close> where it raises.
\<close>

definition assign ::
  "nat \<Rightarrow> (string \<Rightarrow> string option) \<Rightarrow> (string \<Rightarrow> xml option) \<Rightarrow> DrawIoFile \<Rightarrow> string \<Rightarrow> bool \<Rightarrow> bool
     \<Rightarrow> (py_error + DrawIoFile) option" where
  "assign n inflate fromstring st s encoded keepMxfileTag =
     (case assign_text inflate s encoded keepMxfileTag of
        Inl e \<Rightarrow> Some (Inl e)
      | Inr s1 \<Rightarrow>
          (case fromstring s1 of
             None \<Rightarrow> Some (Inl XMLSyntaxError)
           | Some e \<Rightarrow> assign_tree n st e))"

section \<open>Example documents\<close>

text \<open>
  A document with three cells under \<^verbatim>\<open><root>\<close>: cell \<^verbatim>\<open>0\<close>, cell \<^verbatim>\<open>1\<close>
  with parent \<^verbatim>\<open>0\<close>, and cell \<^verbatim>\<open>2\<close> whose parent \<^verbatim>\<open>999\<close> does not exist.
\<close>

definition doc_cells :: xml where
  "doc_cells =
     Element ''mxfile'' [] [Element ''diagram'' [] [Element ''mxGraphModel'' []
       [Element ''root'' []
         [Element ''mxCell'' [(''id'', ''0'')] [],
          Element ''mxCell'' [(''id'', ''1''), (''parent'', ''0'')] [],
          Element ''mxCell'' [(''id'', ''2''), (''parent'', ''999'')] []]]]]"

text \<open>A document whose two cells name each other as parent.\<close>

definition doc_cycle :: xml where
  "doc_cycle =
     Element ''mxfile'' [] [Element ''diagram'' [] [Element ''mxGraphModel'' []
       [Element ''root'' []
         [Element ''mxCell'' [(''id'', ''a''), (''parent'', ''b'')] [],
          Element ''mxCell'' [(''id'', ''b''), (''parent'', ''a'')] []]]]]"

text \<open>A document in which two cells share the id \<^verbatim>\<open>0\<close>.\<close>

definition doc_dup :: xml where
  "doc_dup =
     Element ''mxfile'' [] [Element ''diagram'' [] [Element ''mxGraphModel'' []
       [Element ''root'' []
         [Element ''mxCell'' [(''id'', ''0''), (''value'', ''first'')] [],
          Element ''mxCell'' [(''id'', ''0''), (''value'', ''second'')] []]]]]"

text \<open>A document whose \<^verbatim>\<open><root>\<close> itself names a parent that does not exist.\<close>

definition doc_dangling_root :: xml where
  "doc_dangling_root =
     Element ''mxfile'' [] [Element ''diagram'' [] [Element ''mxGraphModel'' []
       [Element ''root'' [(''parent'', ''999'')] []]]]"

text \<open>
  A plain document as text and as the tree the parser makes of it; \<open>fromstring_plain\<close>
  is the parser on this one text.
\<close>

definition text_plain :: string where
  "text_plain =
     ''<mxfile><diagram><mxGraphModel><root><mxCell/></root></mxGraphModel></diagram></mxfile>''"

definition doc_plain :: xml where
  "doc_plain =
     Element ''mxfile'' [] [Element ''diagram'' [] [Element ''mxGraphModel'' []
       [Element ''root'' [] [Element ''mxCell'' [] []]]]]"

definition fromstring_plain :: "string \<Rightarrow> xml option" where
  "fromstring_plain s = (if s = text_plain then Some doc_plain else None)"

text \<open>
  \<open>loaded e\<close> is the file object after \<^verbatim>\<open>assign\<close> has been given the parsed
  document \<open>e\<close>. \<open>with_children e\<close> is that object after a client has also run the
  \<^verbatim>\<open>xmlTag\<close> setter on the item tree
  (\<^verbatim>\<open>t = f._itemTree; t.xmlTag = t.xmlTag; f._relinkAll()\<close>), which is how an item
  tree with more than one item comes about. Both are the initial object should the
  call raise, which the lemmas on the example states exclude.
\<close>

definition loaded :: "xml \<Rightarrow> DrawIoFile" where
  "loaded e =
     (case assign_tree 2 DrawIoFile_init e of
        Some (Inr st) \<Rightarrow> st
      | _ \<Rightarrow> DrawIoFile_init)"

definition with_children :: "xml \<Rightarrow> DrawIoFile" where
  "with_children e =
     (case relinkAll 3 (set_xmlTag (loaded e) 0 (u_xmlTag (items (loaded e) 0))) of
        Some (Inr st) \<Rightarrow> st
      | _ \<Rightarrow> DrawIoFile_init)"

section \<open>The block codec: properties\<close>

lemmas codec_eval = b64decode_def b64_index_def char_of_eq_iff hexval_def unquote_def
  utf8_len_def utf8_good_def utf8_second_def utf8_cont_def utf8_decode_def
  zlib_decompress_def mxDecodeBlock_def

text \<open>
  C1 (round trip, \<^verbatim>\<open>_mxDecodeBlock(_mxEncodeBlock(x)) == x\<close>). The code does not
  meet the claim: \<^verbatim>\<open>_mxEncodeBlock\<close> passes the \<^verbatim>\<open>str\<close> that \<^verbatim>\<open>quote\<close> returns
  to \<^verbatim>\<open>zlib.compress\<close>, which takes bytes only, so it raises \<^verbatim>\<open>TypeError\<close>
  for every text \<open>x\<close> and every deflate implementation, and the composition with the
  decoder never yields \<open>x\<close>.
\<close>

theorem mxEncodeBlock_TypeError:
  "mxEncodeBlock deflate x = Inl TypeError
   \<and> (case mxEncodeBlock deflate x of Inl e \<Rightarrow> Inl e | Inr b \<Rightarrow> mxDecodeBlock inflate b)
       \<noteq> Inr x"
  by (simp add: mxEncodeBlock_def zlib_compress_def)

lemma a2b_base64_error: "a2b_base64 q l p out s = Inl e \<Longrightarrow> e = BinasciiError"
  by (induction q l p out s rule: a2b_base64.induct) (auto split: if_splits option.splits)

lemma b64_index_pad: "b64_index CHR ''='' = None"
  by (simp add: b64_index_def)

text \<open>
  Base64 text without padding whose length is not a multiple of four is rejected,
  whatever state the decoder is in when it starts on it.
\<close>

lemma a2b_base64_truncated:
  "list_all (\<lambda>c. b64_index c \<noteq> None) s \<Longrightarrow> q < 4 \<Longrightarrow> (q + length s) mod 4 \<noteq> 0
     \<Longrightarrow> a2b_base64 q l p out s = Inl BinasciiError"
proof (induction s arbitrary: q l p out)
  case Nil
  then show ?case by simp
next
  case (Cons c cs)
  from Cons.prems(1) obtain v
    where v: "b64_index c = Some v" and rest: "list_all (\<lambda>c. b64_index c \<noteq> None) cs"
    by auto
  from v have nopad: "c \<noteq> CHR ''=''"
    using b64_index_pad by auto
  consider "q = 0" | "q = 1" | "q = 2" | "q = 3"
    using Cons.prems(2) by linarith
  then show ?case
  proof cases
    case 1
    with Cons.prems(3) have "(1 + length cs) mod 4 \<noteq> 0" by simp
    with Cons.IH [OF rest, of 1] 1 v nopad show ?thesis by simp
  next
    case 2
    with Cons.prems(3) have "(2 + length cs) mod 4 \<noteq> 0" by simp
    with Cons.IH [OF rest, of 2] 2 v nopad show ?thesis by simp
  next
    case 3
    with Cons.prems(3) have "(3 + length cs) mod 4 \<noteq> 0" by simp
    with Cons.IH [OF rest, of 3] 3 v nopad show ?thesis by simp
  next
    case 4
    with Cons.prems(3) have "(0 + length cs) mod 4 \<noteq> 0"
      by (simp add: mod_Suc split: if_splits)
    with Cons.IH [OF rest, of 0] 4 v nopad show ?thesis by simp
  qed
qed

text \<open>
  C8 (a distinct decode error per stage), as the code has it. The claim as stated
  fails: no \<^verbatim>\<open>MalformedEncodingError\<close> exists, and an invalid percent escape is no
  error at all. The block \<^verbatim>\<open>AQMA/P8leno=\<close> is the base64 text of the stored
  deflate block of \<^verbatim>\<open>%zz\<close>; it is decoded to \<^verbatim>\<open>%zz\<close> without an exception.
\<close>

theorem mxDecodeBlock_bad_escape_accepted:
  "mxDecodeBlock inflate_stored (Str ''AQMA/P8leno='') = Inr ''%zz''"
  by (simp add: codec_eval)

text \<open>
  C8, amended: what \<^verbatim>\<open>_mxDecodeBlock\<close> does at each stage. Whenever
  \<^verbatim>\<open>b64decode\<close> fails, and in particular on base64 text cut to a length that is no
  multiple of four, the exception is \<^verbatim>\<open>binascii.Error\<close>, raised before the
  decompressor is called; a failure of the decompressor is \<^verbatim>\<open>zlib.error\<close>; a
  payload that is not UTF-8 raises \<^verbatim>\<open>UnicodeDecodeError\<close>; and every UTF-8 payload
  is accepted and returned unquoted, its malformed escapes left in the text.
\<close>

theorem mxDecodeBlock_stage_errors:
  "(b64decode s = Inl e \<longrightarrow> mxDecodeBlock inflate (Str s) = Inl BinasciiError)
   \<and> (list_all (\<lambda>c. b64_index c \<noteq> None) s \<and> length s mod 4 \<noteq> 0
        \<longrightarrow> mxDecodeBlock inflate (Str s) = Inl BinasciiError)
   \<and> (b64decode s = Inr z \<and> inflate z = None
        \<longrightarrow> mxDecodeBlock inflate (Str s) = Inl ZlibError)
   \<and> (b64decode s = Inr z \<and> inflate z = Some d \<and> \<not> utf8_valid d
        \<longrightarrow> mxDecodeBlock inflate (Str s) = Inl UnicodeDecodeError)
   \<and> (b64decode s = Inr z \<and> inflate z = Some d \<and> utf8_valid d
        \<longrightarrow> mxDecodeBlock inflate (Str s) = Inr (unquote d))"
proof -
  have trunc: "b64decode s = Inl BinasciiError"
    if "list_all (\<lambda>c. b64_index c \<noteq> None) s" "length s mod 4 \<noteq> 0"
    using a2b_base64_truncated [of s 0 0 0 "[]"] that by (simp add: b64decode_def)
  have err: "b64decode s = Inl e \<Longrightarrow> e = BinasciiError"
    by (simp add: b64decode_def a2b_base64_error)
  show ?thesis
    using trunc err
    by (auto simp: mxDecodeBlock_def zlib_decompress_def utf8_decode_def)
qed

theorem mxDecodeBlock_stage_errors_witness:
  "mxDecodeBlock inflate_stored (Str ''AQMA/P8leno'') = Inl BinasciiError
   \<and> mxDecodeBlock inflate_stored (Str ''AQMA/P8l'') = Inl ZlibError
   \<and> mxDecodeBlock inflate_stored (Str ''AQEA/v//'') = Inl UnicodeDecodeError
   \<and> mxDecodeBlock inflate_stored (Str ''AQMA/P8leno='') = Inr ''%zz''"
proof -
  have h1: "list_all (\<lambda>c. b64_index c \<noteq> None) ''AQMA/P8leno''
      \<and> length ''AQMA/P8leno'' mod 4 \<noteq> 0"
    by (simp add: b64_index_def)
  have h2: "b64decode ''AQMA/P8l'' = Inr [CHR 0x01, CHR 0x03, CHR 0x00, CHR 0xFC, CHR 0xFF, CHR ''%'']
      \<and> inflate_stored [CHR 0x01, CHR 0x03, CHR 0x00, CHR 0xFC, CHR 0xFF, CHR ''%''] = None"
    by (simp add: codec_eval)
  have h3: "b64decode ''AQEA/v//'' = Inr [CHR 0x01, CHR 0x01, CHR 0x00, CHR 0xFE, CHR 0xFF, CHR 0xFF]
      \<and> inflate_stored [CHR 0x01, CHR 0x01, CHR 0x00, CHR 0xFE, CHR 0xFF, CHR 0xFF] = Some [CHR 0xFF]
      \<and> \<not> utf8_valid [CHR 0xFF]"
    by (simp add: codec_eval)
  have h4: "b64decode ''AQMA/P8leno=''
        = Inr [CHR 0x01, CHR 0x03, CHR 0x00, CHR 0xFC, CHR 0xFF, CHR ''%'', CHR ''z'', CHR ''z'']
      \<and> inflate_stored [CHR 0x01, CHR 0x03, CHR 0x00, CHR 0xFC, CHR 0xFF, CHR ''%'', CHR ''z'', CHR ''z'']
        = Some ''%zz''
      \<and> utf8_valid ''%zz''"
    by (simp add: codec_eval)
  have u: "unquote ''%zz'' = ''%zz''"
    by (simp add: codec_eval)
  show ?thesis
    using h1 h2 h3 h4 u
      mxDecodeBlock_stage_errors [of "''AQMA/P8leno''" _ inflate_stored]
      mxDecodeBlock_stage_errors [of "''AQMA/P8l''" _ inflate_stored
        "[CHR 0x01, CHR 0x03, CHR 0x00, CHR 0xFC, CHR 0xFF, CHR ''%'']"]
      mxDecodeBlock_stage_errors [of "''AQEA/v//''" _ inflate_stored
        "[CHR 0x01, CHR 0x01, CHR 0x00, CHR 0xFE, CHR 0xFF, CHR 0xFF]" "[CHR 0xFF]"]
      mxDecodeBlock_stage_errors [of "''AQMA/P8leno=''" _ inflate_stored
        "[CHR 0x01, CHR 0x03, CHR 0x00, CHR 0xFC, CHR 0xFF, CHR ''%'', CHR ''z'', CHR ''z'']" "''%zz''"]
    by metis
qed

section \<open>The envelope: properties\<close>

text \<open>
  C5 (a text without the marker \<^verbatim>\<open><diagram\<close> passes through unchanged). The code
  does not meet the claim for \<^verbatim>\<open>assign(s, encoded=True)\<close>: the first piece of the
  split is the whole text, and after it the loop appends the marker that the split is
  assumed to have removed. The parser receives \<open>s\<close> followed by \<^verbatim>\<open><diagram\<close>; only
  with \<^verbatim>\<open>keepMxfileTag=False\<close> it receives \<open>s\<close>.
\<close>

theorem assign_text_zero_markers:
  "find_str ''<diagram'' s = None \<Longrightarrow>
     assign_text inflate s True True = Inr (s @ ''<diagram'')
     \<and> assign_text inflate s True False = Inr s"
  by (simp add: assign_text_def)

theorem assign_text_zero_markers_witness:
  "find_str ''<diagram'' ''<mxfile/>'' = None
   \<and> assign_text inflate_stored ''<mxfile/>'' True True = Inr ''<mxfile/><diagram''
   \<and> assign_text inflate_stored ''<mxfile/>'' True False = Inr ''<mxfile/>''"
proof -
  have h: "find_str ''<diagram'' ''<mxfile/>'' = None" by simp
  show ?thesis using h assign_text_zero_markers [OF h, of inflate_stored] by simp
qed

section \<open>The element graph: the example states\<close>

lemmas graph_eval = assign_tree_def child_def new_MxItem_def MxItem_init_def DrawIoFile_init_def
  relinkAll_def mxId_def link_item_def parent_def lookupId_def set_xmlTag_def Let_def

lemma loaded_cells:
  "loaded doc_cells =
     \<lparr>items = (\<lambda>a. MxItem_init a None (Element [] [] []))
        (0 := \<lparr>u_fileChildren = [], u_parent = None, u_children = [], u_root = Some 0,
               u_fileRoot = Some ThisFile, fileParent = None,
               u_xmlTag = Element ''root'' []
                 [Element ''mxCell'' [(''id'', ''0'')] [],
                  Element ''mxCell'' [(''id'', ''1''), (''parent'', ''0'')] [],
                  Element ''mxCell'' [(''id'', ''2''), (''parent'', ''999'')] []]\<rparr>),
      fresh = 1, u_itemTree = Some 0, u_itemLookup = [(None, 0)], u_etree = Some doc_cells\<rparr>"
  by (simp add: loaded_def doc_cells_def graph_eval numeral_2_eq_2)

lemma with_children_cells_ok:
  "relinkAll 3 (set_xmlTag (loaded doc_cells) 0 (u_xmlTag (items (loaded doc_cells) 0)))
     = Some (Inr (with_children doc_cells))"
  by (simp add: with_children_def loaded_cells graph_eval numeral_3_eq_3)

lemma with_children_cells_fields:
  "u_itemLookup (with_children doc_cells)
     = [(None, 0), (Some ''0'', 1), (Some ''1'', 2), (Some ''2'', 3)]"
  "u_itemTree (with_children doc_cells) = Some 0"
  "fresh (with_children doc_cells) = 4"
  by (simp_all add: with_children_def loaded_cells graph_eval numeral_3_eq_3)

lemma with_children_cells_items:
  "items (with_children doc_cells) 0 =
     \<lparr>u_fileChildren = [1, 2, 3], u_parent = None, u_children = [], u_root = Some 0,
      u_fileRoot = Some ThisFile, fileParent = None,
      u_xmlTag = Element ''root'' []
                 [Element ''mxCell'' [(''id'', ''0'')] [],
                  Element ''mxCell'' [(''id'', ''1''), (''parent'', ''0'')] [],
                  Element ''mxCell'' [(''id'', ''2''), (''parent'', ''999'')] []]\<rparr>"
  "items (with_children doc_cells) (Suc 0) =
     \<lparr>u_fileChildren = [], u_parent = None, u_children = [2], u_root = Some 1,
      u_fileRoot = None, fileParent = Some 0,
      u_xmlTag = Element ''mxCell'' [(''id'', ''0'')] []\<rparr>"
  "items (with_children doc_cells) 2 =
     \<lparr>u_fileChildren = [], u_parent = Some 1, u_children = [], u_root = Some 2,
      u_fileRoot = Some ThisFile, fileParent = Some 0,
      u_xmlTag = Element ''mxCell'' [(''id'', ''1''), (''parent'', ''0'')] []\<rparr>"
  "items (with_children doc_cells) 3 =
     \<lparr>u_fileChildren = [], u_parent = None, u_children = [], u_root = Some 3,
      u_fileRoot = Some ThisFile, fileParent = Some 0,
      u_xmlTag = Element ''mxCell'' [(''id'', ''2''), (''parent'', ''999'')] []\<rparr>"
  by (simp_all add: with_children_def loaded_cells graph_eval numeral_3_eq_3)

lemmas cells_eval = with_children_cells_fields with_children_cells_items

lemma loaded_plain:
  "loaded doc_plain =
     \<lparr>items = (\<lambda>a. MxItem_init a None (Element [] [] []))
        (0 := \<lparr>u_fileChildren = [], u_parent = None, u_children = [], u_root = Some 0,
               u_fileRoot = Some ThisFile, fileParent = None,
               u_xmlTag = Element ''root'' [] [Element ''mxCell'' [] []]\<rparr>),
      fresh = 1, u_itemTree = Some 0, u_itemLookup = [(None, 0)], u_etree = Some doc_plain\<rparr>"
  by (simp add: loaded_def doc_plain_def graph_eval numeral_2_eq_2)

lemma assign_plain:
  "assign 2 inflate_stored fromstring_plain DrawIoFile_init text_plain False True
     = Some (Inr (loaded doc_plain))"
  by (simp add: assign_def assign_text_def fromstring_plain_def loaded_def doc_plain_def
      graph_eval numeral_2_eq_2)

lemma loaded_dup:
  "loaded doc_dup =
     \<lparr>items = (\<lambda>a. MxItem_init a None (Element [] [] []))
        (0 := \<lparr>u_fileChildren = [], u_parent = None, u_children = [], u_root = Some 0,
               u_fileRoot = Some ThisFile, fileParent = None,
               u_xmlTag = Element ''root'' []
                 [Element ''mxCell'' [(''id'', ''0''), (''value'', ''first'')] [],
                  Element ''mxCell'' [(''id'', ''0''), (''value'', ''second'')] []]\<rparr>),
      fresh = 1, u_itemTree = Some 0, u_itemLookup = [(None, 0)], u_etree = Some doc_dup\<rparr>"
  by (simp add: loaded_def doc_dup_def graph_eval numeral_2_eq_2)

lemma with_children_dup:
  "u_itemLookup (with_children doc_dup) = [(None, 0), (Some ''0'', 2)]"
  "u_fileChildren (items (with_children doc_dup) 0) = [1, 2]"
  "u_fileChildren (items (with_children doc_dup) (Suc 0)) = []"
  "u_fileChildren (items (with_children doc_dup) 2) = []"
  "mxId (with_children doc_dup) 0 = None"
  "mxId (with_children doc_dup) (Suc 0) = Some ''0''"
  "mxId (with_children doc_dup) 2 = Some ''0''"
  by (simp_all add: with_children_def loaded_dup graph_eval numeral_3_eq_3)

section \<open>The element graph: properties\<close>

text \<open>
  \<^verbatim>\<open>fileRoot\<close> changes nothing but the \<^verbatim>\<open>_fileRoot\<close> caches of the items it
  passes.
\<close>

lemma fileRoot_frame:
  "fileRoot n st a = Some (r, st1) \<Longrightarrow>
     u_itemLookup st1 = u_itemLookup st \<and> u_itemTree st1 = u_itemTree st
     \<and> fresh st1 = fresh st \<and> u_etree st1 = u_etree st
     \<and> (\<forall>b. u_xmlTag (items st1 b) = u_xmlTag (items st b)
            \<and> u_parent (items st1 b) = u_parent (items st b)
            \<and> u_children (items st1 b) = u_children (items st b)
            \<and> u_fileChildren (items st1 b) = u_fileChildren (items st b)
            \<and> fileParent (items st1 b) = fileParent (items st b)
            \<and> u_root (items st1 b) = u_root (items st b))"
proof (induction n arbitrary: a r st1)
  case 0
  then show ?case by simp
next
  case (Suc n)
  show ?case
  proof (cases "u_fileRoot (items st a)")
    case (Some f)
    with Suc.prems show ?thesis by simp
  next
    case None
    show ?thesis
    proof (cases "fileParent (items st a)")
      case None
      with \<open>u_fileRoot (items st a) = None\<close> Suc.prems show ?thesis by simp
    next
      case (Some p)
      with \<open>u_fileRoot (items st a) = None\<close> Suc.prems
      obtain st0 where rec: "fileRoot n st p = Some (r, st0)"
        and st1: "st1 = st0\<lparr>items := (items st0)(a := (items st0 a)\<lparr>u_fileRoot := r\<rparr>)\<rparr>"
        by (auto split: option.splits)
      from Suc.IH [OF rec] st1 show ?thesis by simp
    qed
  qed
qed

lemma fileRoot_cached:
  "u_fileRoot (items st a) = Some f \<Longrightarrow> fileRoot (Suc n) st a = Some (Some f, st)"
  by simp

lemma mxId_set_attrib_parent: "mxId (set_attrib st a ''parent'' v) b = mxId st b"
  by (cases "u_xmlTag (items st a)") (simp add: mxId_def set_attrib_def update_conv')

lemma parent_attr_set_attrib:
  "map_of (attrib (u_xmlTag (items (set_attrib st a ''parent'' v) a))) ''parent'' = Some v"
  by (cases "u_xmlTag (items st a)") (simp add: set_attrib_def update_conv')

text \<open>
  C10 (\<^verbatim>\<open>__getitem__\<close> bypasses the root fallback): for an item named
  \<^verbatim>\<open>root\<close> whose logical children are empty and whose physical children are not,
  \<^verbatim>\<open>children\<close> is the non-empty list of physical children, while indexing with
  \<^verbatim>\<open>[0]\<close> raises \<^verbatim>\<open>IndexError\<close>; hence \<^verbatim>\<open>DrawIoFile.treeStr\<close> raises
  \<^verbatim>\<open>IndexError\<close> when that item is the item tree.
\<close>

theorem getitem_bypasses_root_fallback:
  assumes "name st a = ''root''"
      and "u_children (items st a) = []"
      and "u_fileChildren (items st a) \<noteq> []"
  shows "children st a = u_fileChildren (items st a) \<and> children st a \<noteq> []
         \<and> getitem st a 0 = Inl IndexError
         \<and> (u_itemTree st = Some a \<longrightarrow>
              DrawIoFile_treeStr n st indent ignore = Some (Inl IndexError))"
  using assms by (simp add: children_def getitem_def DrawIoFile_treeStr_def)

theorem getitem_bypasses_root_fallback_witness:
  "name (with_children doc_cells) 0 = ''root''
   \<and> u_children (items (with_children doc_cells) 0) = []
   \<and> children (with_children doc_cells) 0 = [1, 2, 3]
   \<and> getitem (with_children doc_cells) 0 0 = Inl IndexError
   \<and> DrawIoFile_treeStr 5 (with_children doc_cells) [] None = Some (Inl IndexError)"
proof -
  have h1: "name (with_children doc_cells) 0 = ''root''"
    by (simp add: name_def mxType_def cells_eval)
  have h2: "u_children (items (with_children doc_cells) 0) = []"
    by (simp add: cells_eval)
  have h3: "u_fileChildren (items (with_children doc_cells) 0) \<noteq> []"
    by (simp add: cells_eval)
  show ?thesis
    using h1 h2 getitem_bypasses_root_fallback [OF h1 h2 h3, of 5 "[]" None]
    by (simp add: cells_eval)
qed

text \<open>
  C6 (\<^verbatim>\<open>root\<close> walks up the logical parents to the top). The code does not meet
  the claim: the constructor stores the item itself in \<^verbatim>\<open>_root\<close>, so the test
  \<^verbatim>\<open>self._root is None\<close> fails and the accessor returns the item itself, without
  a walk and without a change of state. In the example the parent of cell \<^verbatim>\<open>1\<close>
  (address 2) is cell \<^verbatim>\<open>0\<close> (address 1), and its root is address 2.
\<close>

theorem root_is_self:
  "u_root (MxItem_init a fp x) = Some a
   \<and> (u_root (items st a) = Some a \<longrightarrow> root (Suc n) st a = Some (Inr (Some a, st)))"
  by (simp add: MxItem_init_def)

theorem root_is_self_witness:
  "u_root (items (with_children doc_cells) 2) = Some 2
   \<and> map_option (map_sum id fst) (parent 1 (with_children doc_cells) 2) = Some (Inr (Some 1))
   \<and> map_option (map_sum id fst) (root 1 (with_children doc_cells) 2) = Some (Inr (Some 2))"
proof -
  have h: "u_root (items (with_children doc_cells) 2) = Some 2"
    by (simp add: cells_eval)
  have p: "map_option (map_sum id fst) (parent 1 (with_children doc_cells) 2) = Some (Inr (Some 1))"
    by (simp add: parent_def mxId_def cells_eval Let_def)
  show ?thesis
    using h p root_is_self [of 2 None "Element [] [] []" "with_children doc_cells" 0]
    by simp
qed

text \<open>
  C7 (the parent cache is revalidated against the \<^verbatim>\<open>parent\<close> attribute): when the
  id of the cached parent equals the attribute, \<^verbatim>\<open>parent\<close> returns the cached item
  and leaves the state as it is, for every bound \<open>n\<close> (so without a lookup, which
  would need \<open>n > 0\<close>); and after the attribute has been set to the id \<open>new\<close> of
  an indexed item \<open>q\<close> that the cached parent does not bear, \<^verbatim>\<open>parent\<close> returns
  \<open>q\<close> and caches it.
\<close>

theorem parent_cache_revalidated:
  "(u_parent (items st a) = Some p
      \<and> mxId st p = map_of (attrib (u_xmlTag (items st a))) ''parent''
      \<longrightarrow> parent n st a = Some (Inr (Some p, st)))
   \<and> (u_parent (items st a) = Some p \<and> mxId st p \<noteq> Some new
      \<and> lookupId st (Some new) = Some q \<and> mxId st q = Some new
      \<and> fileRoot n (set_attrib st a ''parent'' new) a = Some (Some ThisFile, st1)
      \<longrightarrow> (\<exists>st2. parent n (set_attrib st a ''parent'' new) a = Some (Inr (Some q, st2))
            \<and> u_parent (items st2 a) = Some q \<and> mxId st2 q = Some new))"
proof (intro conjI impI)
  assume "u_parent (items st a) = Some p
      \<and> mxId st p = map_of (attrib (u_xmlTag (items st a))) ''parent''"
  then show "parent n st a = Some (Inr (Some p, st))"
    by (simp add: parent_def)
next
  let ?st = "set_attrib st a ''parent'' new"
  assume h: "u_parent (items st a) = Some p \<and> mxId st p \<noteq> Some new
      \<and> lookupId st (Some new) = Some q \<and> mxId st q = Some new
      \<and> fileRoot n ?st a = Some (Some ThisFile, st1)"
  then have cached: "u_parent (items ?st a) = Some p"
    by (simp add: set_attrib_def)
  from h have stale: "mxId ?st p \<noteq> Some new"
    by (simp add: mxId_set_attrib_parent)
  from h have fr: "fileRoot n ?st a = Some (Some ThisFile, st1)"
    by simp
  have lk: "lookupId st1 (Some new) = Some q"
    using fileRoot_frame [OF fr] h by (simp add: lookupId_def set_attrib_def)
  have idq: "mxId st1 q = Some new"
    using fileRoot_frame [OF fr] h mxId_set_attrib_parent [of st a new q]
    by (simp add: mxId_def)
  show "\<exists>st2. parent n ?st a = Some (Inr (Some q, st2))
            \<and> u_parent (items st2 a) = Some q \<and> mxId st2 q = Some new"
    using cached stale fr lk idq parent_attr_set_attrib [of st a new]
    by (auto simp: parent_def mxId_def Let_def)
qed

theorem parent_cache_revalidated_witness:
  "map_option (map_sum id fst) (parent 0 (with_children doc_cells) 2) = Some (Inr (Some 1))
   \<and> map_option (map_sum id fst)
       (parent 1 (set_attrib (with_children doc_cells) 2 ''parent'' ''2'') 2) = Some (Inr (Some 3))"
proof -
  let ?st = "with_children doc_cells"
  have h1: "u_parent (items ?st 2) = Some 1
      \<and> mxId ?st 1 = map_of (attrib (u_xmlTag (items ?st 2))) ''parent''"
    by (simp add: mxId_def cells_eval)
  have h2: "u_parent (items ?st 2) = Some 1 \<and> mxId ?st 1 \<noteq> Some ''2''
      \<and> lookupId ?st (Some ''2'') = Some 3 \<and> mxId ?st 3 = Some ''2''
      \<and> fileRoot 1 (set_attrib ?st 2 ''parent'' ''2'') 2
          = Some (Some ThisFile, set_attrib ?st 2 ''parent'' ''2'')"
    by (simp add: mxId_def lookupId_def set_attrib_def cells_eval)
  from parent_cache_revalidated [where st = "?st" and a = 2 and p = 1 and n = 0] h1
  have a: "parent 0 ?st 2 = Some (Inr (Some 1, ?st))"
    by blast
  from parent_cache_revalidated [where st = "?st" and a = 2 and p = 1 and n = 1
      and new = "''2''" and q = 3 and ?st1.0 = "set_attrib ?st 2 ''parent'' ''2''"] h2
  obtain st2 where b: "parent 1 (set_attrib ?st 2 ''parent'' ''2'') 2 = Some (Inr (Some 3, st2))"
    by blast
  from a b show ?thesis by simp
qed

subsection \<open>The index\<close>

text \<open>
  The table after the first loop, key by key: a key that no item of the walk has keeps
  what the table held, every other key holds the last item of the walk that has it.
\<close>

lemma index_items_map_of:
  "map_of (index_items st ws d) k =
     (case filter (\<lambda>y. mxId st y = k) ws of [] \<Rightarrow> map_of d k | y # ys \<Rightarrow> Some (last (y # ys)))"
proof (induction ws arbitrary: d)
  case Nil
  then show ?case by simp
next
  case (Cons x ws)
  show ?case
  proof (cases "mxId st x = k")
    case True
    then show ?thesis
      by (cases "filter (\<lambda>y. mxId st y = k) ws") (simp_all add: Cons.IH update_conv')
  next
    case False
    then show ?thesis
      by (simp add: Cons.IH update_conv' split: list.splits)
  qed
qed

lemma index_items_distinct:
  "distinct (map fst d) \<Longrightarrow> distinct (map fst (index_items st ws d))"
  by (induction ws arbitrary: d) (simp_all add: distinct_update)

lemma those_map_Some:
  "those (map f xs) = Some ys \<Longrightarrow> list_all2 (\<lambda>x y. f x = Some y) xs ys"
proof (induction xs arbitrary: ys)
  case Nil
  then show ?case by simp
next
  case (Cons x xs)
  then show ?case by (auto split: option.splits)
qed

lemma walkFileTree_closed:
  "walkFileTree n st t = Some ws \<Longrightarrow>
     t \<in> set ws \<and> (\<forall>x \<in> set ws. set (u_fileChildren (items st x)) \<subseteq> set ws)"
proof (induction n arbitrary: t ws)
  case 0
  then show ?case by simp
next
  case (Suc n)
  let ?cs = "u_fileChildren (items st t)"
  from Suc.prems obtain wss
    where wss: "those (map (walkFileTree n st) ?cs) = Some wss" and ws: "ws = t # concat wss"
    by auto
  from those_map_Some [OF wss]
  have rel: "list_all2 (\<lambda>c w. walkFileTree n st c = Some w) ?cs wss" .
  have kids: "c \<in> set (concat wss)" if "c \<in> set ?cs" for c
  proof -
    from that obtain i where i: "i < length ?cs" "?cs ! i = c"
      by (auto simp: in_set_conv_nth)
    with rel have "walkFileTree n st c = Some (wss ! i)" and "wss ! i \<in> set wss"
      by (auto simp: list_all2_conv_all_nth)
    with Suc.IH [of c "wss ! i"] show ?thesis by auto
  qed
  have inner: "set (u_fileChildren (items st x)) \<subseteq> set (concat wss)"
    if "x \<in> set (concat wss)" for x
  proof -
    from that obtain w where w: "w \<in> set wss" "x \<in> set w" by auto
    then obtain i where i: "i < length wss" "wss ! i = w"
      by (auto simp: in_set_conv_nth)
    with rel have "walkFileTree n st (?cs ! i) = Some w"
      by (auto simp: list_all2_conv_all_nth)
    from Suc.IH [OF this] w show ?thesis by auto
  qed
  from kids inner ws show ?case by auto
qed

text \<open>
  C2 (index completeness), as the code has it. The claim as stated fails in its last
  part: the first loop stores every item under \<^verbatim>\<open>item.id\<close>, also when that is
  \<^verbatim>\<open>None\<close>. After loading the example document the item of \<^verbatim>\<open><root>\<close>, which
  has no id, is in the table under the key \<^verbatim>\<open>None\<close>.
\<close>

theorem index_holds_element_without_id:
  "mxId (loaded doc_cells) 0 = None \<and> lookupId (loaded doc_cells) None = Some 0"
  by (simp add: mxId_def lookupId_def loaded_cells)

text \<open>
  C2, amended. Whenever the walk from the item tree \<open>t\<close> returns the list \<open>ws\<close>,
  it contains \<open>t\<close> and the physical children of each of its items (so every item
  reachable from \<open>t\<close>); the keys of the table built from it are distinct; every item
  of the walk finds under its id, absent or not, the last item of the walk with that
  id; and the table holds nothing but items of the walk under their own ids.
\<close>

theorem index_items_table:
  "walkFileTree n st t = Some ws \<Longrightarrow>
     t \<in> set ws
     \<and> (\<forall>x \<in> set ws. set (u_fileChildren (items st x)) \<subseteq> set ws)
     \<and> distinct (map fst (index_items st ws []))
     \<and> (\<forall>x \<in> set ws.
           lookupId (st\<lparr>u_itemLookup := index_items st ws []\<rparr>) (mxId st x)
             = Some (last (filter (\<lambda>y. mxId st y = mxId st x) ws)))
     \<and> (\<forall>k v. lookupId (st\<lparr>u_itemLookup := index_items st ws []\<rparr>) k = Some v
           \<longrightarrow> v \<in> set ws \<and> mxId st v = k)"
proof -
  assume walk: "walkFileTree n st t = Some ws"
  have hit: "lookupId (st\<lparr>u_itemLookup := index_items st ws []\<rparr>) (mxId st x)
      = Some (last (filter (\<lambda>y. mxId st y = mxId st x) ws))" if "x \<in> set ws" for x
  proof -
    from that have "filter (\<lambda>y. mxId st y = mxId st x) ws \<noteq> []"
      by (auto simp: filter_empty_conv)
    then show ?thesis
      by (simp add: lookupId_def index_items_map_of split: list.splits)
  qed
  have only: "v \<in> set ws \<and> mxId st v = k"
    if "lookupId (st\<lparr>u_itemLookup := index_items st ws []\<rparr>) k = Some v" for k v
  proof -
    from that obtain y ys
      where f: "filter (\<lambda>y. mxId st y = k) ws = y # ys" and v: "v = last (y # ys)"
      by (auto simp: lookupId_def index_items_map_of split: list.splits)
    have "last (y # ys) \<in> set (filter (\<lambda>y. mxId st y = k) ws)"
      unfolding f by (rule last_in_set) simp
    with v show ?thesis by simp
  qed
  have dist: "distinct (map fst (index_items st ws []))"
    by (rule index_items_distinct) simp
  from walkFileTree_closed [OF walk] dist hit only
  show ?thesis by blast
qed

theorem index_items_table_witness:
  "walkFileTree (Suc (Suc 0)) (with_children doc_dup) 0 = Some [0, 1, 2]
   \<and> mxId (with_children doc_dup) 0 = None
   \<and> mxId (with_children doc_dup) 1 = Some ''0''
   \<and> mxId (with_children doc_dup) 2 = Some ''0''
   \<and> lookupId ((with_children doc_dup)
        \<lparr>u_itemLookup := index_items (with_children doc_dup) [0, 1, 2] []\<rparr>) (Some ''0'') = Some 2
   \<and> lookupId ((with_children doc_dup)
        \<lparr>u_itemLookup := index_items (with_children doc_dup) [0, 1, 2] []\<rparr>) None = Some 0
   \<and> distinct (map fst (index_items (with_children doc_dup) [0, 1, 2] []))"
proof -
  let ?st = "with_children doc_dup"
  let ?st1 = "?st\<lparr>u_itemLookup := index_items ?st [0, 1, 2] []\<rparr>"
  have walk: "walkFileTree (Suc (Suc 0)) ?st 0 = Some [0, 1, 2]"
    by (simp add: with_children_dup)
  have ids: "mxId ?st 0 = None" "mxId ?st 1 = Some ''0''" "mxId ?st 2 = Some ''0''"
    by (simp_all add: with_children_dup)
  from index_items_table [OF walk]
  have hit: "\<forall>x \<in> set [0, 1, 2]. lookupId ?st1 (mxId ?st x)
      = Some (last (filter (\<lambda>y. mxId ?st y = mxId ?st x) [0, 1, 2]))"
    and dist: "distinct (map fst (index_items ?st [0, 1, 2] []))"
    by blast+
  have m1: "(1::nat) \<in> set [0, 1, 2]" and m0: "(0::nat) \<in> set [0, 1, 2]"
    by simp_all
  from bspec [OF hit m1] ids have first: "lookupId ?st1 (Some ''0'') = Some 2"
    by simp
  from bspec [OF hit m0] ids have top: "lookupId ?st1 None = Some 0"
    by simp
  from walk ids first top dist show ?thesis
    by blast
qed

subsection \<open>Loading\<close>

text \<open>
  \<^verbatim>\<open>_relinkAll\<close> on an item tree that is a single item without physical children,
  which is what \<^verbatim>\<open>assign\<close> builds; with a bound of at least one it returns.
\<close>

lemma relinkAll_single:
  assumes "u_itemTree st = Some r"
      and "u_fileChildren (items st r) = []"
      and "u_parent (items st r) = None"
      and "u_fileRoot (items st r) = Some ThisFile"
      and "relinkAll n st = Some (Inr st')"
  shows "u_itemTree st' = Some r \<and> fresh st' = fresh st
         \<and> u_fileChildren (items st' r) = []
         \<and> u_xmlTag (items st' r) = u_xmlTag (items st r)
         \<and> (\<forall>a. a \<noteq> r \<longrightarrow> items st' a = items st a)
         \<and> u_itemLookup st' = [(mxId st r, r)]"
proof (cases n)
  case 0
  with assms show ?thesis by (simp add: relinkAll_def)
next
  case (Suc k)
  with assms show ?thesis
    by (auto simp: relinkAll_def link_item_def parent_def lookupId_def mxId_def Let_def
        split: option.splits if_splits sum.splits)
qed

lemma relinkAll_single_returns:
  assumes "u_itemTree st = Some r"
      and "u_fileChildren (items st r) = []"
      and "u_parent (items st r) = None"
      and "u_fileRoot (items st r) = Some ThisFile"
  shows "\<exists>st'. relinkAll (Suc k) st = Some (Inr st')"
  using assms
  by (auto simp: relinkAll_def link_item_def parent_def lookupId_def mxId_def Let_def
      split: option.splits if_splits sum.splits)

lemma assign_tree_single:
  assumes "assign_tree n st e = Some (Inr st')"
  shows "u_itemTree st' = Some (fresh st) \<and> fresh st' = Suc (fresh st)
         \<and> u_fileChildren (items st' (fresh st)) = []
         \<and> (\<forall>a. a \<noteq> fresh st \<longrightarrow> items st' a = items st a)
         \<and> u_itemLookup st' = [(mxId st' (fresh st), fresh st)]"
proof -
  from assms obtain e1 e2 e3
    where kids: "child e 0 = Inr e1" "child e1 0 = Inr e2" "child e2 0 = Inr e3"
    by (auto simp: assign_tree_def split: sum.splits)
  define st3 where "st3 = st\<lparr>u_etree := Some e, fresh := Suc (fresh st),
      u_itemTree := Some (fresh st),
      items := (items st)
        (fresh st := (MxItem_init (fresh st) None e3)\<lparr>u_fileRoot := Some ThisFile\<rparr>)\<rparr>"
  from assms kids have run: "relinkAll n st3 = Some (Inr st')"
    by (simp add: assign_tree_def new_MxItem_def Let_def st3_def)
  have pre: "u_itemTree st3 = Some (fresh st)" "u_fileChildren (items st3 (fresh st)) = []"
    "u_parent (items st3 (fresh st)) = None" "u_fileRoot (items st3 (fresh st)) = Some ThisFile"
    by (simp_all add: st3_def MxItem_init_def)
  from relinkAll_single [OF pre run] show ?thesis
    by (simp add: st3_def mxId_def)
qed

lemma assign_tree_returns:
  "\<exists>r. assign_tree (Suc k) st e = Some r"
proof (cases "assign_tree (Suc k) st e")
  case (Some r)
  then show ?thesis by simp
next
  case None
  then obtain e1 e2 e3
    where kids: "child e 0 = Inr e1" "child e1 0 = Inr e2" "child e2 0 = Inr e3"
    by (auto simp: assign_tree_def split: sum.splits)
  define st3 where "st3 = st\<lparr>u_etree := Some e, fresh := Suc (fresh st),
      u_itemTree := Some (fresh st),
      items := (items st)
        (fresh st := (MxItem_init (fresh st) None e3)\<lparr>u_fileRoot := Some ThisFile\<rparr>)\<rparr>"
  from None kids have run: "relinkAll (Suc k) st3 = None"
    by (simp add: assign_tree_def new_MxItem_def Let_def st3_def)
  have pre: "u_itemTree st3 = Some (fresh st)" "u_fileChildren (items st3 (fresh st)) = []"
    "u_parent (items st3 (fresh st)) = None" "u_fileRoot (items st3 (fresh st)) = Some ThisFile"
    by (simp_all add: st3_def MxItem_init_def)
  from relinkAll_single_returns [OF pre, of k] run show ?thesis by simp
qed

text \<open>
  C9 (a loaded document has a single item): whenever \<^verbatim>\<open>assign\<close> returns, it has
  built exactly one \<^verbatim>\<open>MxItem\<close>, the item tree, at the address \<open>fresh st\<close>; the
  constructor has stored the element in \<^verbatim>\<open>_xmlTag\<close> without running the setter, so
  the physical children of the item are empty, whatever child elements the element
  has; all other objects are as they were; \<^verbatim>\<open>walkFileTree\<close> on the item tree
  returns that one item; and the lookup table has the one entry for it.
\<close>

theorem assign_builds_one_item:
  "assign n inflate fromstring st s encoded keepMxfileTag = Some (Inr st') \<Longrightarrow>
     u_itemTree st' = Some (fresh st) \<and> fresh st' = Suc (fresh st)
     \<and> u_fileChildren (items st' (fresh st)) = []
     \<and> (\<forall>a. a \<noteq> fresh st \<longrightarrow> items st' a = items st a)
     \<and> walkFileTree (Suc m) st' (fresh st) = Some [fresh st]
     \<and> u_itemLookup st' = [(mxId st' (fresh st), fresh st)]
     \<and> length (u_itemLookup st') \<le> 1"
proof -
  assume "assign n inflate fromstring st s encoded keepMxfileTag = Some (Inr st')"
  then obtain e where "assign_tree n st e = Some (Inr st')"
    by (auto simp: assign_def split: sum.splits option.splits)
  from assign_tree_single [OF this] show ?thesis by simp
qed

theorem assign_builds_one_item_witness:
  "assign 2 inflate_stored fromstring_plain DrawIoFile_init text_plain False True
     = Some (Inr (loaded doc_plain))
   \<and> kids (u_xmlTag (items (loaded doc_plain) 0)) = [Element ''mxCell'' [] []]
   \<and> u_itemTree (loaded doc_plain) = Some 0
   \<and> u_fileChildren (items (loaded doc_plain) 0) = []
   \<and> walkFileTree (Suc 0) (loaded doc_plain) 0 = Some [0]
   \<and> u_itemLookup (loaded doc_plain) = [(None, 0)]
   \<and> length (u_itemLookup (loaded doc_plain)) \<le> 1"
proof -
  have k: "kids (u_xmlTag (items (loaded doc_plain) 0)) = [Element ''mxCell'' [] []]"
    by (simp add: loaded_plain)
  have i: "mxId (loaded doc_plain) 0 = None"
    by (simp add: mxId_def loaded_plain)
  have f: "fresh DrawIoFile_init = 0"
    by (simp add: DrawIoFile_init_def)
  from assign_builds_one_item [OF assign_plain, of 0] k i f assign_plain
  show ?thesis by simp
qed

end
